theory Spec2Isabelle
  imports Complex_Main
begin

section \<open>Python string primitives used by the two scripts\<close>

text \<open>
  Python strings are modelled as \<^typ>\<open>string\<close>; one \<^typ>\<open>char\<close> stands for one
  code point below 256. \<open>len\<close> is \<^const>\<open>length\<close>, \<open>s[:n]\<close> is \<^const>\<open>take\<close>,
  \<open>s[n:]\<close> is \<^const>\<open>drop\<close> and \<open>c * n\<close> is \<^const>\<open>replicate\<close>.
\<close>

text \<open>\<open>s.startswith(p)\<close>.\<close>

definition startswith :: "string \<Rightarrow> string \<Rightarrow> bool" where
  "startswith s p = (take (length p) s = p)"

text \<open>\<open>s.endswith(p)\<close>.\<close>

definition endswith :: "string \<Rightarrow> string \<Rightarrow> bool" where
  "endswith s p = (length p \<le> length s \<and> drop (length s - length p) s = p)"

text \<open>\<open>s.rfind(c)\<close> for a one-character \<open>c\<close>: the highest index of \<open>c\<close>, or \<open>-1\<close>.\<close>

definition rfind :: "string \<Rightarrow> char \<Rightarrow> int" where
  "rfind s c =
     (if c \<in> set s
      then int (length s) - 1 - int (length (takeWhile (\<lambda>x. x \<noteq> c) (rev s)))
      else - 1)"

text \<open>\<open>str.isspace\<close> on one character (code points below 256).\<close>

definition isspace :: "char \<Rightarrow> bool" where
  "isspace c =
     (let n = of_char c :: nat
      in (9 \<le> n \<and> n \<le> 13) \<or> (28 \<le> n \<and> n \<le> 32) \<or> n = 133 \<or> n = 160)"

text \<open>\<open>s.strip()\<close>, \<open>s.upper()\<close> on ASCII letters, and \<open>s.split("=", 1)[1]\<close>.\<close>

definition strip :: "string \<Rightarrow> string" where
  "strip s = rev (dropWhile isspace (rev (dropWhile isspace s)))"

definition upper_char :: "char \<Rightarrow> char" where
  "upper_char c =
     (let n = of_char c :: nat
      in if 97 \<le> n \<and> n \<le> 122 then char_of (n - 32) else c)"

definition upper :: "string \<Rightarrow> string" where
  "upper s = map upper_char s"

text \<open>
  \<open>s.split("=", 1)\<close> gives one element when \<open>s\<close> has no \<open>=\<close> and otherwise the
  text before the first \<open>=\<close> and the text after it; index 1 of a one-element list
  raises \<open>IndexError\<close>, written here as \<^const>\<open>None\<close>.
\<close>

definition split_eq_snd :: "string \<Rightarrow> string option" where
  "split_eq_snd s =
     (if CHR ''='' \<in> set s
      then Some (tl (dropWhile (\<lambda>x. x \<noteq> CHR ''='') s))
      else None)"

section \<open>manage_api_key.py: viewing the key\<close>

text \<open>
  The masking expression of \<open>view_api_key\<close> (lines 16-19, repeated at lines 26-29):
  \<^verbatim>\<open>
  if len(key) > 8:
      masked = key[:4] + "*" * (len(key) - 8) + key[-4:]
  else:
      masked = "*" * len(key)
  \<close>
  With more than eight characters, \<open>key[-4:]\<close> is the slice from index \<open>len(key) - 4\<close>.
\<close>

definition mask_key :: "string \<Rightarrow> string" where
  "mask_key key =
     (if length key > 8
      then take 4 key @ replicate (length key - 8) CHR ''*'' @ drop (length key - 4) key
      else replicate (length key) CHR ''*'')"

text \<open>
  The loop of \<open>view_api_key\<close> over the lines of \<open>.env\<close>: the first line that starts
  with \<open>GROQ_API_KEY=\<close> is printed masked and the function returns.
\<close>

fun view_env_lines :: "string list \<Rightarrow> string option" where
  "view_env_lines [] = None"
| "view_env_lines (line # rest) =
     (if startswith line ''GROQ_API_KEY=''
      then (case split_eq_snd (strip line) of
              Some key \<Rightarrow> Some (''Current API key (.env): '' @ mask_key key)
            | None \<Rightarrow> None)
      else view_env_lines rest)"

text \<open>
  \<open>view_api_key\<close>: \<open>env_file\<close> is the list of lines of \<open>.env\<close> when the file exists,
  \<open>env_key\<close> the value of the environment variable; the result is the line printed.
  An empty environment value is falsy in Python and counts as no key.
\<close>

definition view_api_key :: "string list option \<Rightarrow> string option \<Rightarrow> string" where
  "view_api_key env_file env_key =
     (case (case env_file of Some ls \<Rightarrow> view_env_lines ls | None \<Rightarrow> None) of
        Some out \<Rightarrow> out
      | None \<Rightarrow>
          (case env_key of
             Some k \<Rightarrow>
               (if k \<noteq> [] then ''Current API key (environment): '' @ mask_key k
                else ''No API key found!'')
           | None \<Rightarrow> ''No API key found!''))"

section \<open>receipt_extractor.py: naming the output file\<close>

text \<open>\<open>os.path.basename\<close> on POSIX: \<open>p[p.rfind('/') + 1:]\<close>.\<close>

definition basename :: "string \<Rightarrow> string" where
  "basename p = drop (nat (rfind p CHR ''/'' + 1)) p"

text \<open>
  \<open>os.path.splitext\<close> on POSIX. The extension starts at the last dot, provided that dot
  comes after the last slash and some character between the slash and the dot is not
  a dot (the library's loop that skips leading dots); otherwise the extension is empty.
\<close>

definition splitext :: "string \<Rightarrow> string \<times> string" where
  "splitext p =
     (let sepIndex = rfind p CHR ''/'';
          dotIndex = rfind p CHR ''.''
      in if dotIndex > sepIndex \<and>
            list_ex (\<lambda>c. c \<noteq> CHR ''.'')
              (take (nat dotIndex - nat (sepIndex + 1)) (drop (nat (sepIndex + 1)) p))
         then (take (nat dotIndex) p, drop (nat dotIndex) p)
         else (p, []))"

definition get_json_filename :: "string \<Rightarrow> string" where
  "get_json_filename image_path = fst (splitext (basename image_path)) @ ''.json''"

section \<open>receipt_extractor.py: values, effects and the outside world\<close>

text \<open>
  The values \<open>json.loads\<close> returns: \<open>None\<close>, \<open>bool\<close>, \<open>int\<close>, \<open>float\<close>, \<open>str\<close>,
  \<open>list\<close> and \<open>dict\<close>. A \<open>dict\<close> keeps its insertion order and is an association list
  here. A finite \<open>float\<close> is the real number it denotes.
\<close>

datatype json =
    JNull
  | JBool bool
  | JInt int
  | JFloat real
  | JString string
  | JArray "json list"
  | JObject "(string \<times> json) list"

text \<open>Python's truth value of such a value, as tested by \<open>if extracted_data:\<close>.\<close>

fun truthy :: "json \<Rightarrow> bool" where
  "truthy JNull = False"
| "truthy (JBool b) = b"
| "truthy (JInt n) = (n \<noteq> 0)"
| "truthy (JFloat x) = (x \<noteq> 0)"
| "truthy (JString s) = (s \<noteq> [])"
| "truthy (JArray xs) = (xs \<noteq> [])"
| "truthy (JObject kvs) = (kvs \<noteq> [])"

text \<open>
  The exceptions the script can meet: \<open>OSError\<close> from opening a file, \<open>GroqError\<close> from
  constructing the client without a key, \<open>APIError\<close> from the request,
  \<open>JSONDecodeError\<close> from \<open>json.loads\<close> (it carries the document it was given), the
  \<open>ValueError\<close> the script raises itself or \<open>json.loads\<close> raises for an integer with
  too many digits (it carries its message), and \<open>RecursionError\<close> from \<open>json.loads\<close> on
  a text nested too deeply.
\<close>

datatype exn =
    OSError
  | GroqError
  | APIError
  | JSONDecodeError string
  | ValueError string
  | RecursionError

text \<open>
  What a call of \<open>json.loads\<close> on a string does: it returns a value, raises
  \<open>JSONDecodeError\<close> for that string, or raises another exception.
\<close>

datatype loads_outcome =
    Value json
  | DecodeError
  | Raised exn

text \<open>The lines the script prints, one constructor per \<open>print\<close> site.\<close>

datatype event =
    ErrorProcessing string exn
  | NoImageFiles string
  | FoundImages nat
  | Processing string
  | Extracted string string json
  | FailedToExtract string
  | Complete nat nat
  | PleaseSetKey
  | ProcessingSingle string
  | ExtractedData json
  | ResultSaved string
  | FailedSingle
  | FileNotFound string

text \<open>
  What a run changes: the files written (path and the value dumped into it, latest
  first), the number of requests sent to the service, and the lines printed.
\<close>

record state =
  out_files :: "(string \<times> json) list"
  requests :: nat
  printed :: "event list"

text \<open>
  What the script asks of the file system, the service and the libraries:
  the names in a directory, whether a path exists, the bytes of a file (\<open>None\<close> when
  \<open>open\<close> raises), \<open>base64.b64encode\<close>, the reply of the service to the n-th request
  for a key, a prompt and a data URL (\<open>None\<close> when the call raises), \<open>json.loads\<close>,
  \<open>json.dumps(..., indent=2)\<close>, and
  whether a path can be opened for writing.
\<close>

record host =
  dir_names :: "string \<Rightarrow> string list"
  path_exists :: "string \<Rightarrow> bool"
  file_bytes :: "string \<Rightarrow> string option"
  b64encode :: "string \<Rightarrow> string"
  chat_create :: "nat \<Rightarrow> string \<Rightarrow> string \<Rightarrow> string \<Rightarrow> string option"
  loads :: "string \<Rightarrow> loads_outcome"
  dumps :: "json \<Rightarrow> string"
  open_w :: "string \<Rightarrow> bool"

definition say :: "event \<Rightarrow> state \<Rightarrow> state" where
  "say e s = s\<lparr>printed := printed s @ [e]\<rparr>"

section \<open>receipt_extractor.py: credentials\<close>

text \<open>
  \<open>load_dotenv()\<close> at import time, with the library's default \<open>override=False\<close>: a
  variable of the \<open>.env\<close> file is put into \<open>os.environ\<close> only when \<open>os.environ\<close> has no
  variable of that name. \<open>dotenv\<close> is \<open>None\<close> when the package is not installed (the
  \<open>ImportError\<close> branch) or no file is found.
\<close>

definition load_dotenv :: "(string \<rightharpoonup> string) option \<Rightarrow> (string \<rightharpoonup> string) \<Rightarrow> (string \<rightharpoonup> string)" where
  "load_dotenv dotenv environ =
     (case dotenv of None \<Rightarrow> environ | Some vars \<Rightarrow> vars ++ environ)"

text \<open>Python's \<open>a or b\<close> on optional strings: \<open>None\<close> and the empty string are falsy.\<close>

definition py_or :: "string option \<Rightarrow> string option \<Rightarrow> string option" where
  "py_or a b = (case a of None \<Rightarrow> b | Some k \<Rightarrow> if k \<noteq> [] then Some k else b)"

text \<open>Line 36: \<open>api_key or os.environ.get("GROQ_API_KEY")\<close>.\<close>

definition client_api_key :: "string option \<Rightarrow> (string \<rightharpoonup> string) \<Rightarrow> string option" where
  "client_api_key api_key environ = py_or api_key (environ ''GROQ_API_KEY'')"

section \<open>receipt_extractor.py: the prompt\<close>

definition create_extraction_prompt :: "(json \<Rightarrow> string) \<Rightarrow> string \<Rightarrow> json \<Rightarrow> string" where
  "create_extraction_prompt dumps_indent system_prompt json_schema =
     system_prompt @ ''\<newline>\<newline>Please extract the information according to this JSON schema:\<newline>''
       @ dumps_indent json_schema
       @ ''\<newline>\<newline>Return ONLY valid JSON that matches this schema. Do not include any explanatory text.''"

definition system_prompt :: string where
  "system_prompt =
     ''Extract the following details from the provided image of receipt document. First look for VAT identification number (vatNumber) in the document and associated name of the company (companyName).\<newline>''
     @ ''Ensure all fields from the schema are populated if the information is present in the document. If a piece of information is not found, you may omit the field or use a suitable placeholder like ''
     @ [CHR 0x27] @ ''N/A'' @ [CHR 0x27]
     @ '' if the schema requires it, but prioritize extracting actual values. For numerical values (prices, VAT amount, VAT rate), provide them as numbers (float).\<newline>''
     @ ''For VAT rate, if it'' @ [CHR 0x27] @ ''s written as e.g. '' @ [CHR 0x27] @ ''21%'' @ [CHR 0x27]
     @ '', provide the number 21. Also, extract the date of sale (transaction date) from the receipt always in dd.mm.yyyy format. It might be in dd/mm/yyyy or dd.mm.yyyy format on document. If multiple dates are present (e.g., issue date, due date), use the primary transaction sale date.''"

definition string_field :: "string \<Rightarrow> json" where
  "string_field d = JObject [(''type'', JString ''string''), (''description'', JString d)]"

definition float_field :: "string \<Rightarrow> json" where
  "float_field d =
     JObject [(''type'', JString ''number''), (''format'', JString ''float''),
              (''description'', JString d)]"

definition json_schema :: json where
  "json_schema =
     JObject
       [(''type'', JString ''object''),
        (''required'',
           JArray (map JString
             [''companyName'', ''vatNumber'', ''priceWithoutVAT'', ''vat'', ''vatRate'',
              ''priceIncludingVAT'', ''dateOfSale''])),
        (''properties'',
           JObject
             [(''companyName'', string_field ''The legal name of the company that issued the receipt always associated with the VAT identification number. Legal name always includes legal form (e.g. s.r.o., a.s. etc.)''),
              (''vatNumber'', string_field ''The VAT identification number of the company.''),
              (''priceWithoutVAT'', float_field ''The total price of goods/services before VAT is applied. Use 0.0 if not explicitly found.''),
              (''vat'', float_field ''The total VAT amount charged. Use 0.0 if not explicitly found.''),
              (''vatRate'', float_field ''The VAT rate as a percentage (e.g., 21 for 21%). Use 0.0 if not explicitly found.''),
              (''priceIncludingVAT'', float_field ''The final price including VAT. This is usually the most prominent total amount.''),
              (''dateOfSale'', string_field ''The date of sale or transaction date from the receipt, in dd.mm.yyyy format.'')])]"

section \<open>receipt_extractor.py: one image\<close>

text \<open>\<open>encode_image\<close>: the base64 text of the file, or the \<open>OSError\<close> of \<open>open\<close>.\<close>

definition encode_image :: "host \<Rightarrow> string \<Rightarrow> exn + string" where
  "encode_image h image_path =
     (case file_bytes h image_path of
        None \<Rightarrow> Inl OSError
      | Some bytes \<Rightarrow> Inr (b64encode h bytes))"

text \<open>
  \<^verbatim>\<open>re.search(r'\{[\s\S]*\}', text)\<close>: the match starts at the first \<open>{\<close> and, the star
  being greedy, ends at the last \<open>}\<close> after it; there is no match when no \<open>}\<close> follows
  the first \<open>{\<close>.
\<close>

definition brace_span :: "string \<Rightarrow> string option" where
  "brace_span text =
     (let t = dropWhile (\<lambda>c. c \<noteq> CHR ''{'') text
      in if CHR ''}'' \<in> set t
         then Some (rev (dropWhile (\<lambda>c. c \<noteq> CHR ''}'') (rev t)))
         else None)"

text \<open>
  Lines 116-126, the inner \<open>try\<close>: parse the whole reply; on \<open>JSONDecodeError\<close>, and
  on no other exception, parse the brace span, whose own exceptions are not caught
  here; without a span raise \<open>ValueError\<close>.
\<close>

definition parse_response :: "(string \<Rightarrow> loads_outcome) \<Rightarrow> string \<Rightarrow> exn + json" where
  "parse_response json_loads response_content =
     (case json_loads response_content of
        Value extracted_data \<Rightarrow> Inr extracted_data
      | Raised e \<Rightarrow> Inl e
      | DecodeError \<Rightarrow>
          (case brace_span response_content of
             Some json_match \<Rightarrow>
               (case json_loads json_match of
                  Value extracted_data \<Rightarrow> Inr extracted_data
                | DecodeError \<Rightarrow> Inl (JSONDecodeError json_match)
                | Raised e \<Rightarrow> Inl e)
           | None \<Rightarrow> Inl (ValueError ''Could not find valid JSON in the response'')))"

text \<open>
  \<open>extract_receipt_data\<close>. The client and the encoding of the image come before the
  \<open>try\<close>, so their exceptions leave the function (\<open>Inl\<close>). The request and the parsing
  are inside it: their exceptions are printed and the function returns \<open>None\<close>. The
  request is counted whether or not it succeeds.
\<close>

definition extract_receipt_data ::
  "host \<Rightarrow> (string \<rightharpoonup> string) \<Rightarrow> string \<Rightarrow> string option \<Rightarrow> state \<Rightarrow> (exn + json option) \<times> state" where
  "extract_receipt_data h environ image_path api_key s =
     (case client_api_key api_key environ of
        None \<Rightarrow> (Inl GroqError, s)
      | Some key \<Rightarrow>
          (case encode_image h image_path of
             Inl e \<Rightarrow> (Inl e, s)
           | Inr base64_image \<Rightarrow>
               (let extraction_prompt = create_extraction_prompt (dumps h) system_prompt json_schema;
                    s1 = s\<lparr>requests := Suc (requests s)\<rparr>
                in case chat_create h (requests s) key extraction_prompt
                          (''data:image/jpeg;base64,'' @ base64_image) of
                     None \<Rightarrow> (Inr None, say (ErrorProcessing image_path APIError) s1)
                   | Some response_content \<Rightarrow>
                       (case parse_response (loads h) response_content of
                          Inl e \<Rightarrow> (Inr None, say (ErrorProcessing image_path e) s1)
                        | Inr extracted_data \<Rightarrow> (Inr (Some extracted_data), s1)))))"

text \<open>
  Lines 170-171: \<open>open(json_filename, 'w')\<close> and \<open>json.dump\<close>; the \<open>OSError\<close> of
  \<open>open\<close> is not caught anywhere.
\<close>

definition write_json :: "host \<Rightarrow> string \<Rightarrow> json \<Rightarrow> state \<Rightarrow> exn + state" where
  "write_json h json_filename extracted_data s =
     (if open_w h json_filename
      then Inr (s\<lparr>out_files := (json_filename, extracted_data) # out_files s\<rparr>)
      else Inl OSError)"

section \<open>receipt_extractor.py: the batch\<close>

text \<open>\<open>os.path.join\<close> of two components and \<open>os.path.split\<close>, on POSIX.\<close>

definition path_join :: "string \<Rightarrow> string \<Rightarrow> string" where
  "path_join a b =
     (if startswith b ''/'' then b
      else if a = [] \<or> endswith a ''/'' then a @ b
      else a @ ''/'' @ b)"

definition rstrip_slash :: "string \<Rightarrow> string" where
  "rstrip_slash s = rev (dropWhile (\<lambda>c. c = CHR ''/'') (rev s))"

definition path_split :: "string \<Rightarrow> string \<times> string" where
  "path_split p =
     (let i = nat (rfind p CHR ''/'' + 1);
          head = take i p;
          tail = drop i p
      in if head \<noteq> [] \<and> head \<noteq> replicate (length head) CHR ''/''
         then (rstrip_slash head, tail)
         else (head, tail))"

text \<open>
  \<open>fnmatch\<close> on a case-sensitive system, for patterns made of literal characters and
  \<open>*\<close> (the patterns of this script have no \<open>?\<close> and no \<open>[\<close>).
\<close>

fun fnmatch :: "string \<Rightarrow> string \<Rightarrow> bool" where
  "fnmatch [] [] = True"
| "fnmatch (c # cs) [] = False"
| "fnmatch [] (p # ps) = (p = CHR ''*'' \<and> fnmatch [] ps)"
| "fnmatch (c # cs) (p # ps) =
     (if p = CHR ''*'' then fnmatch (c # cs) ps \<or> fnmatch cs (p # ps)
      else c = p \<and> fnmatch cs ps)"

text \<open>\<open>glob._ishidden\<close>: a name that starts with a dot.\<close>

definition ishidden :: "string \<Rightarrow> bool" where
  "ishidden name = startswith name ''.''"

text \<open>
  \<open>glob.glob(pathname)\<close> for a path whose directory part has no wildcard and whose
  last component is a pattern that does not start with a dot: the names of the
  directory that are not hidden and match the pattern, each joined to the directory
  part. The order is that of the directory listing.
\<close>

definition glob :: "host \<Rightarrow> string \<Rightarrow> string list" where
  "glob h pathname =
     (let (dirname, pattern) = path_split pathname
      in map (path_join dirname)
           (filter (\<lambda>name. \<not> ishidden name \<and> fnmatch name pattern) (dir_names h dirname)))"

definition image_extensions :: "string list" where
  "image_extensions = [''*.jpg'', ''*.jpeg'', ''*.png'', ''*.gif'', ''*.bmp'']"

text \<open>Lines 148-150: for each pattern, the matches of the pattern, then of its upper case.\<close>

definition image_files :: "host \<Rightarrow> string \<Rightarrow> string list" where
  "image_files h directory =
     concat (map (\<lambda>ext. glob h (path_join directory ext) @ glob h (path_join directory (upper ext)))
               image_extensions)"

text \<open>\<open>if extracted_data:\<close> on the result of \<open>extract_receipt_data\<close>.\<close>

fun usable :: "json option \<Rightarrow> json option" where
  "usable None = None"
| "usable (Some d) = (if truthy d then Some d else None)"

text \<open>
  The loop of lines 160-178 with its counter. An exception that leaves
  \<open>extract_receipt_data\<close> or \<open>open\<close> leaves the loop.
\<close>

fun process_images ::
  "host \<Rightarrow> (string \<rightharpoonup> string) \<Rightarrow> string list \<Rightarrow> nat \<Rightarrow> state \<Rightarrow> (exn + nat) \<times> state" where
  "process_images h environ [] successful_count s = (Inr successful_count, s)"
| "process_images h environ (image_path # rest) successful_count s =
     (case extract_receipt_data h environ image_path None
             (say (Processing (basename image_path)) s) of
        (Inl e, s1) \<Rightarrow> (Inl e, s1)
      | (Inr extracted_data, s1) \<Rightarrow>
          (case usable extracted_data of
             Some d \<Rightarrow>
               (case write_json h (get_json_filename image_path) d s1 of
                  Inl e \<Rightarrow> (Inl e, s1)
                | Inr s2 \<Rightarrow>
                    process_images h environ rest (Suc successful_count)
                      (say (Extracted (basename image_path) (get_json_filename image_path) d) s2))
           | None \<Rightarrow>
               process_images h environ rest successful_count
                 (say (FailedToExtract (basename image_path)) s1)))"

definition process_all_receipts ::
  "host \<Rightarrow> (string \<rightharpoonup> string) \<Rightarrow> string \<Rightarrow> state \<Rightarrow> (exn + unit) \<times> state" where
  "process_all_receipts h environ directory s =
     (let files = image_files h directory
      in if files = [] then (Inr (), say (NoImageFiles directory) s)
         else (case process_images h environ files 0 (say (FoundImages (length files)) s) of
                 (Inl e, s1) \<Rightarrow> (Inl e, s1)
               | (Inr successful_count, s1) \<Rightarrow>
                   (Inr (), say (Complete successful_count (length files)) s1)))"

text \<open>Lines 200-216 of \<open>main\<close>: one file named on the command line.\<close>

definition process_single ::
  "host \<Rightarrow> (string \<rightharpoonup> string) \<Rightarrow> string \<Rightarrow> state \<Rightarrow> (exn + unit) \<times> state" where
  "process_single h environ image_path s =
     (if path_exists h image_path
      then (case extract_receipt_data h environ image_path None
                   (say (ProcessingSingle image_path) s) of
              (Inl e, s1) \<Rightarrow> (Inl e, s1)
            | (Inr result, s1) \<Rightarrow>
                (case usable result of
                   Some d \<Rightarrow>
                     (case write_json h (get_json_filename image_path) d (say (ExtractedData d) s1) of
                        Inl e \<Rightarrow> (Inl e, say (ExtractedData d) s1)
                      | Inr s2 \<Rightarrow> (Inr (), say (ResultSaved (get_json_filename image_path)) s2))
                 | None \<Rightarrow> (Inr (), say FailedSingle s1)))
      else (Inr (), say (FileNotFound image_path) s))"

text \<open>
  \<open>main\<close>; \<open>args\<close> is \<open>sys.argv[1:]\<close>. The test of line 188 is falsy for a missing and
  for an empty variable.
\<close>

definition main :: "host \<Rightarrow> (string \<rightharpoonup> string) \<Rightarrow> string list \<Rightarrow> state \<Rightarrow> (exn + unit) \<times> state" where
  "main h environ args s =
     (if py_or (environ ''GROQ_API_KEY'') None = None then (Inr (), say PleaseSetKey s)
      else (case args of
              image_path # _ \<Rightarrow> process_single h environ image_path s
            | [] \<Rightarrow> process_all_receipts h environ ''.'' s))"

text \<open>
  The script run as a program: the import-time \<open>load_dotenv()\<close> on the environment of
  the process, then \<open>main\<close>.
\<close>

definition script :: "host \<Rightarrow> (string \<rightharpoonup> string) option \<Rightarrow> (string \<rightharpoonup> string) \<Rightarrow> string list \<Rightarrow> state \<Rightarrow> (exn + unit) \<times> state" where
  "script h dotenv process_env args s = main h (load_dotenv dotenv process_env) args s"

section \<open>A strict JSON reader for the examples\<close>

text \<open>
  \<open>json.loads\<close> is a parameter of the model (the field \<^const>\<open>loads\<close> of the host), and
  the theorems about the script hold for every such function. The examples need one
  concrete reader, \<open>example_loads\<close>, which returns the value \<open>loads_text\<close> reads and
  raises \<open>JSONDecodeError\<close> when \<open>loads_text\<close> reads none. \<open>loads_text\<close> reads JSON as \<open>json.loads\<close> does: white space is
  blank, tab, line feed and carriage return; an object keeps the last value of a
  repeated key; a number without fraction and exponent is an \<open>int\<close>, any other is a
  \<open>float\<close>, read as the decimal it spells; nothing but white space may follow the value.
  Outside this reader: \<open>\u\<close> escapes in strings and the constants \<open>NaN\<close>, \<open>Infinity\<close>
  and \<open>-Infinity\<close>; none of the examples uses them.
\<close>

definition is_ws :: "char \<Rightarrow> bool" where
  "is_ws c = (c = CHR '' '' \<or> c = CHR 0x09 \<or> c = CHR 0x0A \<or> c = CHR 0x0D)"

definition skip_ws :: "string \<Rightarrow> string" where
  "skip_ws s = dropWhile is_ws s"

definition is_digit :: "char \<Rightarrow> bool" where
  "is_digit c = (48 \<le> (of_char c :: nat) \<and> (of_char c :: nat) \<le> 57)"

definition nat_of_digits :: "string \<Rightarrow> nat" where
  "nat_of_digits ds = foldl (\<lambda>n c. 10 * n + (of_char c - 48)) 0 ds"

text \<open>\<open>expect c s\<close>: the rest of \<open>s\<close> after its first character when that is \<open>c\<close>.\<close>

fun expect :: "char \<Rightarrow> string \<Rightarrow> string option" where
  "expect c [] = None"
| "expect c (x # xs) = (if x = c then Some xs else None)"

text \<open>The character an escape letter stands for.\<close>

definition unescape :: "char \<Rightarrow> char option" where
  "unescape e =
     (if e = CHR 0x22 \<or> e = CHR 0x5C \<or> e = CHR ''/'' then Some e
      else if e = CHR ''b'' then Some (CHR 0x08)
      else if e = CHR ''f'' then Some (CHR 0x0C)
      else if e = CHR ''n'' then Some (CHR 0x0A)
      else if e = CHR ''r'' then Some (CHR 0x0D)
      else if e = CHR ''t'' then Some (CHR 0x09)
      else None)"

text \<open>A string after its opening quote: the text up to the closing quote, and the rest.\<close>

fun scan_string :: "string \<Rightarrow> (string \<times> string) option" where
  "scan_string [] = None"
| "scan_string [c] = (if c = CHR 0x22 then Some ([], []) else None)"
| "scan_string (c # e # cs) =
     (if c = CHR 0x22 then Some ([], e # cs)
      else if c = CHR 0x5C then
        (case unescape e of
           None \<Rightarrow> None
         | Some d \<Rightarrow> map_option (\<lambda>(t, r). (d # t, r)) (scan_string cs))
      else if (of_char c :: nat) < 32 then None
      else map_option (\<lambda>(t, r). (c # t, r)) (scan_string (e # cs)))"

text \<open>The exponent part \<open>[eE][-+]?[0-9]+\<close>, when there is one: its value and the rest.\<close>

definition scan_exponent :: "string \<Rightarrow> (int \<times> string) option" where
  "scan_exponent s =
     (case s of
        [] \<Rightarrow> None
      | e # r \<Rightarrow>
          if e = CHR ''e'' \<or> e = CHR ''E'' then
            (let neg = (expect CHR ''-'' r \<noteq> None);
                 r1 = (case expect CHR ''-'' r of Some x \<Rightarrow> x
                       | None \<Rightarrow> (case expect CHR ''+'' r of Some x \<Rightarrow> x | None \<Rightarrow> r));
                 ds = takeWhile is_digit r1
             in if ds = [] then None
                else Some ((if neg then - int (nat_of_digits ds) else int (nat_of_digits ds)),
                           drop (length ds) r1))
          else None)"

text \<open>A number: \<open>-?(0|[1-9][0-9]*)(\.[0-9]+)?([eE][-+]?[0-9]+)?\<close>.\<close>

definition scan_number :: "string \<Rightarrow> (json \<times> string) option" where
  "scan_number s =
     (let neg = (expect CHR ''-'' s \<noteq> None);
          r0 = (case expect CHR ''-'' s of Some x \<Rightarrow> x | None \<Rightarrow> s);
          ds = takeWhile is_digit r0
      in if ds = [] then None
         else
           (let ip = (if hd ds = CHR ''0'' then ''0'' else ds);
                r1 = drop (length ip) r0;
                frac = (case expect CHR ''.'' r1 of Some x \<Rightarrow> takeWhile is_digit x | None \<Rightarrow> []);
                r2 = (if frac = [] then r1 else drop (Suc (length frac)) r1);
                ex = scan_exponent r2
            in if frac = [] \<and> ex = None
               then Some (JInt (if neg then - int (nat_of_digits ip) else int (nat_of_digits ip)), r1)
               else
                 (let m = real (nat_of_digits (ip @ frac)) / 10 ^ length frac;
                      v = (case ex of None \<Rightarrow> m | Some (k, _) \<Rightarrow> m * 10 powi k);
                      r3 = (case ex of None \<Rightarrow> r2 | Some (_, r) \<Rightarrow> r)
                  in Some (JFloat (if neg then - v else v), r3))))"

text \<open>\<open>d[k] = v\<close> on an insertion-ordered dictionary.\<close>

fun dict_set :: "string \<Rightarrow> json \<Rightarrow> (string \<times> json) list \<Rightarrow> (string \<times> json) list" where
  "dict_set k v [] = [(k, v)]"
| "dict_set k v ((k', v') # kvs) = (if k' = k then (k, v) # kvs else (k', v') # dict_set k v kvs)"

text \<open>
  Values, the elements of an array after \<open>[\<close> and the members of an object after \<open>{\<close>.
  The first argument bounds the number of nested calls; a call that meets the bound
  fails, and \<open>loads_text\<close> starts with twice the length of the text and two more.
\<close>

fun scan_value :: "nat \<Rightarrow> string \<Rightarrow> (json \<times> string) option"
  and scan_array :: "nat \<Rightarrow> json list \<Rightarrow> string \<Rightarrow> (json \<times> string) option"
  and scan_object :: "nat \<Rightarrow> (string \<times> json) list \<Rightarrow> string \<Rightarrow> (json \<times> string) option" where
  "scan_value 0 s = None"
| "scan_value (Suc n) s =
     (if startswith s [CHR 0x22] then map_option (\<lambda>(t, r). (JString t, r)) (scan_string (tl s))
      else if startswith s ''{'' then
        (case expect CHR ''}'' (skip_ws (tl s)) of
           Some r \<Rightarrow> Some (JObject [], r)
         | None \<Rightarrow> scan_object n [] (skip_ws (tl s)))
      else if startswith s ''['' then
        (case expect CHR '']'' (skip_ws (tl s)) of
           Some r \<Rightarrow> Some (JArray [], r)
         | None \<Rightarrow> scan_array n [] (skip_ws (tl s)))
      else if startswith s ''null'' then Some (JNull, drop 4 s)
      else if startswith s ''true'' then Some (JBool True, drop 4 s)
      else if startswith s ''false'' then Some (JBool False, drop 5 s)
      else scan_number s)"
| "scan_array 0 acc s = None"
| "scan_array (Suc n) acc s =
     (case scan_value n s of
        None \<Rightarrow> None
      | Some (v, r) \<Rightarrow>
          (case expect CHR '','' (skip_ws r) of
             Some r1 \<Rightarrow> scan_array n (acc @ [v]) (skip_ws r1)
           | None \<Rightarrow>
               (case expect CHR '']'' (skip_ws r) of
                  Some r1 \<Rightarrow> Some (JArray (acc @ [v]), r1)
                | None \<Rightarrow> None)))"
| "scan_object 0 acc s = None"
| "scan_object (Suc n) acc s =
     (case expect (CHR 0x22) s of
        None \<Rightarrow> None
      | Some s1 \<Rightarrow>
          (case scan_string s1 of
             None \<Rightarrow> None
           | Some (k, r) \<Rightarrow>
               (case expect CHR '':'' (skip_ws r) of
                  None \<Rightarrow> None
                | Some r1 \<Rightarrow>
                    (case scan_value n (skip_ws r1) of
                       None \<Rightarrow> None
                     | Some (v, r2) \<Rightarrow>
                         (case expect CHR '','' (skip_ws r2) of
                            Some r3 \<Rightarrow> scan_object n (dict_set k v acc) (skip_ws r3)
                          | None \<Rightarrow>
                              (case expect CHR ''}'' (skip_ws r2) of
                                 Some r3 \<Rightarrow> Some (JObject (dict_set k v acc), r3)
                               | None \<Rightarrow> None))))))"

definition loads_text :: "string \<Rightarrow> json option" where
  "loads_text s =
     (case scan_value (2 * length s + 2) (skip_ws s) of
        None \<Rightarrow> None
      | Some (v, r) \<Rightarrow> if skip_ws r = [] then Some v else None)"

definition example_loads :: "string \<Rightarrow> loads_outcome" where
  "example_loads s = (case loads_text s of Some v \<Rightarrow> Value v | None \<Rightarrow> DecodeError)"

section \<open>A host for the examples\<close>

text \<open>
  A directory \<open>.\<close> with the given names, in which the listed paths cannot be opened
  for reading, and a service that answers a request by looking its data URL up in
  \<open>replies\<close>. The bytes of a file are its path and the encoding leaves them as they
  are: the content of an image plays no part in the examples. Every path can be
  opened for writing.
\<close>

definition example_host :: "string list \<Rightarrow> string list \<Rightarrow> (string \<times> string) list \<Rightarrow> host" where
  "example_host names unreadable replies =
     \<lparr> dir_names = (\<lambda>d. if d = ''.'' then names else []),
       path_exists = (\<lambda>p. True),
       file_bytes = (\<lambda>p. if p \<in> set unreadable then None else Some p),
       b64encode = (\<lambda>bytes. bytes),
       chat_create = (\<lambda>n key prompt url. map_of replies url),
       loads = example_loads,
       dumps = (\<lambda>v. ''{}''),
       open_w = (\<lambda>p. True) \<rparr>"

definition start :: state where
  "start = \<lparr> out_files = [], requests = 0, printed = [] \<rparr>"


section \<open>The claims as the specification words them\<close>

text \<open>
  Recovery as the specification states it: the whole text when it parses to an
  object, otherwise the brace span, and a failure that carries the raw text.
\<close>

fun is_object :: "json \<Rightarrow> bool" where
  "is_object (JObject kvs) = True"
| "is_object v = False"

definition recover_stated :: "(string \<Rightarrow> loads_outcome) \<Rightarrow> string \<Rightarrow> string + json" where
  "recover_stated json_loads rawText =
     (case (case json_loads rawText of
              Value v \<Rightarrow> if is_object v then Some v else None
            | DecodeError \<Rightarrow> None
            | Raised e \<Rightarrow> None) of
        Some v \<Rightarrow> Inr v
      | None \<Rightarrow>
          (case brace_span rawText of
             Some inner \<Rightarrow>
               (case json_loads inner of
                  Value v \<Rightarrow> Inr v
                | DecodeError \<Rightarrow> Inl rawText
                | Raised e \<Rightarrow> Inl rawText)
           | None \<Rightarrow> Inl rawText))"

text \<open>The text an exception of the script carries.\<close>

fun carried :: "exn \<Rightarrow> string" where
  "carried (JSONDecodeError doc) = doc"
| "carried (ValueError msg) = msg"
| "carried e = []"

text \<open>
  The credential as the specification states it: the override, else the entry of the
  file, else the variable of the process environment.
\<close>

definition credential_stated ::
  "string option \<Rightarrow> (string \<rightharpoonup> string) option \<Rightarrow> (string \<rightharpoonup> string) \<Rightarrow> string option" where
  "credential_stated api_key dotenv process_env =
     (case api_key of
        Some k \<Rightarrow> Some k
      | None \<Rightarrow>
          (case (case dotenv of Some vars \<Rightarrow> vars ''GROQ_API_KEY'' | None \<Rightarrow> None) of
             Some k \<Rightarrow> Some k
           | None \<Rightarrow> process_env ''GROQ_API_KEY''))"



text \<open>
  The directory \<open>glob.glob\<close> lists for \<open>process_all_receipts(directory)\<close>: the
  directory part of \<open>os.path.join(directory, pattern)\<close>, which is the same for every
  pattern without a slash.
\<close>

definition listing_dir :: "string \<Rightarrow> string" where
  "listing_dir directory = fst (path_split (path_join directory []))"

section \<open>Properties\<close>

subsection \<open>String helpers\<close>

lemma rfind_absent: "c \<notin> set s \<Longrightarrow> rfind s c = - 1"
  by (simp add: rfind_def)

lemma rfind_append_sep:
  assumes "c \<notin> set f"
  shows "rfind (d @ c # f) c = int (length d)"
proof -
  have "takeWhile (\<lambda>x. x \<noteq> c) (rev f @ c # rev d) = rev f"
    using assms by (auto simp: takeWhile_tail)
  then show ?thesis by (simp add: rfind_def)
qed

lemma basename_no_sep: "CHR ''/'' \<notin> set f \<Longrightarrow> basename f = f"
  by (simp add: basename_def rfind_absent)

lemma nat_int_Suc: "nat (int n + 1) = Suc n"
  by simp

lemma basename_join: "CHR ''/'' \<notin> set f \<Longrightarrow> basename (d @ CHR ''/'' # f) = f"
  by (simp add: basename_def rfind_append_sep nat_int_Suc del: of_nat_Suc)

lemma basename_has_no_sep: "CHR ''/'' \<notin> set (basename p)"
proof (cases "CHR ''/'' \<in> set p")
  case False
  then show ?thesis by (simp add: basename_no_sep)
next
  case True
  then obtain d f where p: "p = d @ CHR ''/'' # f" and f: "CHR ''/'' \<notin> set f"
    by (meson split_list_last)
  then show ?thesis by (simp add: basename_join)
qed

lemma basename_idem: "basename (basename p) = basename p"
  by (simp add: basename_no_sep basename_has_no_sep)

lemma splitext_stem:
  assumes "CHR ''/'' \<notin> set stem" "CHR ''/'' \<notin> set ext" "CHR ''.'' \<notin> set ext"
    and "\<exists>c \<in> set stem. c \<noteq> CHR ''.''"
  shows "splitext (stem @ CHR ''.'' # ext) = (stem, CHR ''.'' # ext)"
proof -
  have sep: "rfind (stem @ CHR ''.'' # ext) CHR ''/'' = - 1"
    using assms by (simp add: rfind_absent)
  have dot: "rfind (stem @ CHR ''.'' # ext) CHR ''.'' = int (length stem)"
    using assms by (simp add: rfind_append_sep)
  show ?thesis
    using assms(4) by (simp add: splitext_def sep dot list_ex_iff)
qed

lemma mask_key_length: "length (mask_key k) = length k"
  by (simp add: mask_key_def)

lemma view_api_key_environment:
  "k \<noteq> [] \<Longrightarrow> view_api_key None (Some k) = ''Current API key (environment): '' @ mask_key k"
  by (simp add: view_api_key_def)

lemma view_api_key_env_file:
  assumes "startswith line ''GROQ_API_KEY=''" and "split_eq_snd (strip line) = Some key"
  shows "view_api_key (Some (line # rest)) e = ''Current API key (.env): '' @ mask_key key"
  using assms by (simp add: view_api_key_def)

subsection \<open>Masking on display\<close>

text \<open>
  Claim C9. The text shown by \<open>view_api_key\<close> for a stored value has the value's length.
  When the value has more than eight characters, its first four and its last four
  characters are shown and every character between them is a star; when it has eight
  characters or fewer, every character is a star.
\<close>

theorem mask_key_shape:
  "length (mask_key k) = length k \<and>
   (\<forall>i < length k.
      mask_key k ! i =
        (if 8 < length k \<and> (i < 4 \<or> length k - 4 \<le> i) then k ! i else CHR ''*''))"
proof (intro conjI allI impI)
  show "length (mask_key k) = length k" by (rule mask_key_length)
next
  fix i assume i: "i < length k"
  show "mask_key k ! i =
        (if 8 < length k \<and> (i < 4 \<or> length k - 4 \<le> i) then k ! i else CHR ''*'')"
  proof (cases "8 < length k")
    case False
    with i show ?thesis by (simp add: mask_key_def)
  next
    case long: True
    consider "i < 4" | "4 \<le> i" "i < length k - 4" | "length k - 4 \<le> i" by linarith
    then show ?thesis
    proof cases
      case 1
      with long i show ?thesis by (simp add: mask_key_def nth_append)
    next
      case 2
      with long have "i - 4 < length k - 8" by linarith
      with 2 long i show ?thesis by (simp add: mask_key_def nth_append)
    next
      case 3
      have a: "\<not> i < 4" and b: "\<not> i - 4 < length k - 8"
        using long i 3 by linarith+
      have c: "length k - 4 + (i - 4 - (length k - 8)) = i"
        using long i 3 by linarith
      have "mask_key k ! i = drop (length k - 4) k ! (i - 4 - (length k - 8))"
        using long a b by (simp add: mask_key_def nth_append)
      also have "\<dots> = k ! (length k - 4 + (i - 4 - (length k - 8)))"
        using long by (intro nth_drop) simp
      finally have "mask_key k ! i = k ! i" by (simp only: c)
      with 3 long show ?thesis by simp
    qed
  qed
qed

theorem mask_key_shape_witness:
  "length (mask_key ''gsk_0123456789abcd'') = 18 \<and>
   mask_key ''gsk_0123456789abcd'' ! 2 = CHR ''k'' \<and>
   mask_key ''gsk_0123456789abcd'' ! 9 = CHR ''*'' \<and>
   mask_key ''gsk_0123456789abcd'' ! 15 = CHR ''b'' \<and>
   mask_key ''short'' ! 1 = CHR ''*''"
  using mask_key_shape [of "''gsk_0123456789abcd''", THEN conjunct1]
    mask_key_shape [of "''gsk_0123456789abcd''", THEN conjunct2, rule_format, of 2]
    mask_key_shape [of "''gsk_0123456789abcd''", THEN conjunct2, rule_format, of 9]
    mask_key_shape [of "''gsk_0123456789abcd''", THEN conjunct2, rule_format, of 15]
    mask_key_shape [of "''short''", THEN conjunct2, rule_format, of 1]
  by simp

subsection \<open>Output file name\<close>

lemma get_json_filename_of_basename: "get_json_filename (basename p) = get_json_filename p"
  by (simp add: get_json_filename_def basename_idem)

text \<open>
  Claim C7. The output name depends on the base name of the image path only: two paths
  with the same base name get the same output name, the directory part of a path has
  no influence, and for a file name \<open>stem.ext\<close> the output name is \<open>stem.json\<close>.
\<close>

theorem get_json_filename_basename_only:
  "(basename p = basename q \<longrightarrow> get_json_filename p = get_json_filename q) \<and>
   (CHR ''/'' \<notin> set f \<longrightarrow> get_json_filename (d @ ''/'' @ f) = get_json_filename f) \<and>
   (CHR ''/'' \<notin> set stem \<and> CHR ''/'' \<notin> set ext \<and> CHR ''.'' \<notin> set ext \<and>
    (\<exists>c \<in> set stem. c \<noteq> CHR ''.'') \<longrightarrow>
      get_json_filename (d @ ''/'' @ stem @ ''.'' @ ext) = stem @ ''.json'')"
proof (intro conjI impI)
  assume "basename p = basename q"
  then show "get_json_filename p = get_json_filename q"
    by (simp add: get_json_filename_def)
next
  assume "CHR ''/'' \<notin> set f"
  then show "get_json_filename (d @ ''/'' @ f) = get_json_filename f"
    by (simp add: get_json_filename_def basename_join basename_no_sep)
next
  assume a: "CHR ''/'' \<notin> set stem \<and> CHR ''/'' \<notin> set ext \<and> CHR ''.'' \<notin> set ext \<and>
    (\<exists>c \<in> set stem. c \<noteq> CHR ''.'')"
  then have "CHR ''/'' \<notin> set (stem @ CHR ''.'' # ext)" by simp
  then have "basename (d @ CHR ''/'' # stem @ CHR ''.'' # ext) = stem @ CHR ''.'' # ext"
    by (rule basename_join)
  moreover have "splitext (stem @ CHR ''.'' # ext) = (stem, CHR ''.'' # ext)"
    using a by (intro splitext_stem) simp_all
  ultimately show "get_json_filename (d @ ''/'' @ stem @ ''.'' @ ext) = stem @ ''.json''"
    by (simp add: get_json_filename_def)
qed

theorem get_json_filename_basename_only_witness:
  "basename ''scans/2024/receipt.jpg'' = basename ''./receipt.jpg'' \<and>
   get_json_filename ''scans/2024/receipt.jpg'' = get_json_filename ''./receipt.jpg'' \<and>
   get_json_filename (''scans/2024'' @ ''/'' @ ''receipt.jpg'') = get_json_filename ''receipt.jpg'' \<and>
   get_json_filename (''scans'' @ ''/'' @ ''receipt'' @ ''.'' @ ''jpg'') = ''receipt'' @ ''.json''"
proof -
  have b: "basename ''scans/2024/receipt.jpg'' = basename ''./receipt.jpg''"
    by (simp add: basename_def rfind_def)
  have s: "CHR ''/'' \<notin> set ''receipt.jpg''" by simp
  have e: "CHR ''/'' \<notin> set ''receipt'' \<and> CHR ''/'' \<notin> set ''jpg'' \<and> CHR ''.'' \<notin> set ''jpg'' \<and>
    (\<exists>c \<in> set ''receipt''. c \<noteq> CHR ''.'')" by simp
  from b s e
    get_json_filename_basename_only [of "''scans/2024/receipt.jpg''" "''./receipt.jpg''"
      "''receipt.jpg''" "''scans/2024''" "''receipt''" "''jpg''", THEN conjunct1]
    get_json_filename_basename_only [of "''scans/2024/receipt.jpg''" "''./receipt.jpg''"
      "''receipt.jpg''" "''scans/2024''" "''receipt''" "''jpg''", THEN conjunct2, THEN conjunct1]
    get_json_filename_basename_only [of "''scans/2024/receipt.jpg''" "''./receipt.jpg''"
      "''receipt''" "''scans''" "''receipt''" "''jpg''", THEN conjunct2, THEN conjunct2]
  show ?thesis by blast
qed

subsection \<open>The brace span\<close>

lemma brace_span_SomeD:
  assumes "brace_span raw = Some m"
  shows "m \<noteq> [] \<and> hd m = CHR ''{'' \<and> last m = CHR ''}'' \<and>
         (\<exists>pre post. raw = pre @ m @ post \<and> CHR ''{'' \<notin> set pre \<and> CHR ''}'' \<notin> set post)"
proof -
  define t where "t = dropWhile (\<lambda>c. c \<noteq> CHR ''{'') raw"
  define pre where "pre = takeWhile (\<lambda>c. c \<noteq> CHR ''{'') raw"
  define post where "post = rev (takeWhile (\<lambda>c. c \<noteq> CHR ''}'') (rev t))"
  from assms have close: "CHR ''}'' \<in> set t"
    and m: "m = rev (dropWhile (\<lambda>c. c \<noteq> CHR ''}'') (rev t))"
    by (auto simp: brace_span_def t_def Let_def split: if_splits)
  have raw: "raw = pre @ t" by (simp add: pre_def t_def)
  have t: "t = m @ post"
  proof -
    have "rev (takeWhile (\<lambda>c. c \<noteq> CHR ''}'') (rev t) @ dropWhile (\<lambda>c. c \<noteq> CHR ''}'') (rev t)) = t"
      by (simp only: takeWhile_dropWhile_id rev_rev_ident)
    then have "rev (dropWhile (\<lambda>c. c \<noteq> CHR ''}'') (rev t)) @ rev (takeWhile (\<lambda>c. c \<noteq> CHR ''}'') (rev t)) = t"
      by (simp only: rev_append)
    then show ?thesis unfolding m post_def by (rule sym)
  qed
  have ne: "dropWhile (\<lambda>c. c \<noteq> CHR ''}'') (rev t) \<noteq> []"
    using close by (simp add: dropWhile_eq_Nil_conv)
  then have m_ne: "m \<noteq> []" by (simp add: m)
  have "last m = hd (dropWhile (\<lambda>c. c \<noteq> CHR ''}'') (rev t))"
    using ne by (simp add: m last_rev)
  also have "\<dots> = CHR ''}''"
    using ne hd_dropWhile [of "\<lambda>c. c \<noteq> CHR ''}''" "rev t"] by simp
  finally have last: "last m = CHR ''}''" .
  have t_ne: "t \<noteq> []" using close by auto
  have "hd t = CHR ''{''"
    using t_ne hd_dropWhile [of "\<lambda>c. c \<noteq> CHR ''{''" raw] by (simp add: t_def)
  with t m_ne have hd: "hd m = CHR ''{''" by simp
  have "CHR ''{'' \<notin> set pre"
    by (auto simp: pre_def dest: set_takeWhileD)
  moreover have "CHR ''}'' \<notin> set post"
    by (auto simp: post_def dest: set_takeWhileD)
  ultimately show ?thesis using raw t m_ne hd last by auto
qed

lemma brace_span_SomeI:
  assumes "m \<noteq> []" "hd m = CHR ''{''" "last m = CHR ''}''"
    and "CHR ''{'' \<notin> set pre" "CHR ''}'' \<notin> set post"
  shows "brace_span (pre @ m @ post) = Some m"
proof -
  obtain ms where ms: "m = CHR ''{'' # ms" using assms(1,2) by (cases m) auto
  have p1: "\<And>x. x \<in> set pre \<Longrightarrow> x \<noteq> CHR ''{''" using assms(4) by auto
  have p2: "\<And>x. x \<in> set (rev post) \<Longrightarrow> x \<noteq> CHR ''}''" using assms(5) by auto
  have d: "dropWhile (\<lambda>c. c \<noteq> CHR ''{'') (pre @ m @ post) = m @ post"
    using p1 by (simp add: ms dropWhile_append2)
  have l: "CHR ''}'' \<in> set m" using assms(1,3) last_in_set by metis
  obtain ys where ys: "rev m = CHR ''}'' # ys"
    using assms(1,3) by (cases "rev m") (auto simp: last_rev [symmetric] hd_rev)
  have "dropWhile (\<lambda>c. c \<noteq> CHR ''}'') (rev post @ rev m) = dropWhile (\<lambda>c. c \<noteq> CHR ''}'') (rev m)"
    by (rule dropWhile_append2) (use p2 in auto)
  also have "\<dots> = rev m" by (simp add: ys)
  finally have "dropWhile (\<lambda>c. c \<noteq> CHR ''}'') (rev post @ rev m) = rev m" .
  then have "dropWhile (\<lambda>c. c \<noteq> CHR ''}'') (rev (m @ post)) = rev m"
    by simp
  with d l show ?thesis by (simp add: brace_span_def Let_def)
qed

lemma brace_span_None_iff:
  "brace_span raw = None \<longleftrightarrow> CHR ''}'' \<notin> set (dropWhile (\<lambda>c. c \<noteq> CHR ''{'') raw)"
  by (simp add: brace_span_def Let_def)

lemma brace_span_whole:
  assumes "brace_span raw = Some m"
  shows "m = raw \<longleftrightarrow> hd raw = CHR ''{'' \<and> last raw = CHR ''}''"
proof
  assume "m = raw"
  with brace_span_SomeD [OF assms] show "hd raw = CHR ''{'' \<and> last raw = CHR ''}''"
    by simp
next
  assume b: "hd raw = CHR ''{'' \<and> last raw = CHR ''}''"
  from brace_span_SomeD [OF assms] have "raw \<noteq> []" by auto
  with b have "brace_span ([] @ raw @ []) = Some raw"
    by (intro brace_span_SomeI) simp_all
  with assms show "m = raw" by simp
qed

subsection \<open>Recovery of the record from the reply\<close>

text \<open>
  Claim C3. When the whole reply is a JSON text, here one that \<open>json.loads\<close> accepts,
  the value recovered is the value \<open>json.loads\<close> gives for that text, unchanged.
\<close>

theorem parse_response_well_formed:
  "json_loads raw = Value v \<Longrightarrow> parse_response json_loads raw = Inr v"
  by (simp add: parse_response_def)

theorem parse_response_well_formed_witness:
  "example_loads ''{\"companyName\":\"Acme s.r.o.\",\"vatNumber\":\"SK123\",\"priceWithoutVAT\":10,\"vat\":2,\"vatRate\":21,\"priceIncludingVAT\":12,\"dateOfSale\":\"01.02.2024\"}'' =
     Value (JObject [(''companyName'', JString ''Acme s.r.o.''), (''vatNumber'', JString ''SK123''),
                    (''priceWithoutVAT'', JInt 10), (''vat'', JInt 2), (''vatRate'', JInt 21),
                    (''priceIncludingVAT'', JInt 12), (''dateOfSale'', JString ''01.02.2024'')]) \<and>
   parse_response example_loads ''{\"companyName\":\"Acme s.r.o.\",\"vatNumber\":\"SK123\",\"priceWithoutVAT\":10,\"vat\":2,\"vatRate\":21,\"priceIncludingVAT\":12,\"dateOfSale\":\"01.02.2024\"}'' =
     Inr (JObject [(''companyName'', JString ''Acme s.r.o.''), (''vatNumber'', JString ''SK123''),
                    (''priceWithoutVAT'', JInt 10), (''vat'', JInt 2), (''vatRate'', JInt 21),
                    (''priceIncludingVAT'', JInt 12), (''dateOfSale'', JString ''01.02.2024'')])"
proof -
  have l: "example_loads ''{\"companyName\":\"Acme s.r.o.\",\"vatNumber\":\"SK123\",\"priceWithoutVAT\":10,\"vat\":2,\"vatRate\":21,\"priceIncludingVAT\":12,\"dateOfSale\":\"01.02.2024\"}'' =
     Value (JObject [(''companyName'', JString ''Acme s.r.o.''), (''vatNumber'', JString ''SK123''),
                    (''priceWithoutVAT'', JInt 10), (''vat'', JInt 2), (''vatRate'', JInt 21),
                    (''priceIncludingVAT'', JInt 12), (''dateOfSale'', JString ''01.02.2024'')])"
    by code_simp
  from l parse_response_well_formed [where json_loads = example_loads, OF l]
  show ?thesis by (rule conjI)
qed

text \<open>
  Claim C2, as stated, fails on the code. A reply that parses to a value that is not an
  object, such as an array holding one object, is returned as it is and the brace
  span is never tried; when the reply has no brace span the exception carries a
  fixed message, not the reply; and when the brace span does not parse the exception
  carries the span, which here is a part of the reply only.
\<close>

theorem recover_stated_counterexample:
  "parse_response example_loads ''[{\"a\": 1}]'' = Inr (JArray [JObject [(''a'', JInt 1)]]) \<and>
   map_sum carried id (parse_response example_loads ''[{\"a\": 1}]'')
     \<noteq> recover_stated example_loads ''[{\"a\": 1}]'' \<and>
   map_sum carried id (parse_response example_loads ''Sorry, I cannot process this image.'')
     \<noteq> recover_stated example_loads ''Sorry, I cannot process this image.'' \<and>
   map_sum carried id (parse_response example_loads ''See {\"vat\": } here'')
     \<noteq> recover_stated example_loads ''See {\"vat\": } here''"
  by code_simp

text \<open>
  Claim C2, amended. Recovery has two stages in this order. The value of the whole
  reply is returned whenever the reply parses, whether or not the value is an
  object. When parsing the whole reply raises \<open>JSONDecodeError\<close>, the text from the
  first \<open>{\<close> to the last \<open>}\<close> after it is parsed and its value returned. When that
  text does not parse either, the failure is a \<open>JSONDecodeError\<close> that carries that
  text, which is the raw reply exactly when the reply starts with \<open>{\<close> and ends with
  \<open>}\<close>. When there is no such text, the failure is a \<open>ValueError\<close> that carries a fixed
  message, whatever the reply. Any other exception of \<open>json.loads\<close>, in either stage,
  is passed on as it is.
\<close>

theorem parse_response_two_stages:
  "(json_loads raw = Value v \<longrightarrow> parse_response json_loads raw = Inr v) \<and>
   (json_loads raw = Raised e \<longrightarrow> parse_response json_loads raw = Inl e) \<and>
   (json_loads raw = DecodeError \<and> brace_span raw = Some m \<and> json_loads m = Value w \<longrightarrow>
      parse_response json_loads raw = Inr w) \<and>
   (json_loads raw = DecodeError \<and> brace_span raw = Some m \<and> json_loads m = DecodeError \<longrightarrow>
      parse_response json_loads raw = Inl (JSONDecodeError m) \<and>
      map_sum carried id (parse_response json_loads raw) = Inl m \<and>
      (m = raw \<longleftrightarrow> hd raw = CHR ''{'' \<and> last raw = CHR ''}'')) \<and>
   (json_loads raw = DecodeError \<and> brace_span raw = Some m \<and> json_loads m = Raised x \<longrightarrow>
      parse_response json_loads raw = Inl x) \<and>
   (json_loads raw = DecodeError \<and> brace_span raw = None \<longrightarrow>
      parse_response json_loads raw = Inl (ValueError ''Could not find valid JSON in the response'') \<and>
      map_sum carried id (parse_response json_loads raw) = Inl ''Could not find valid JSON in the response'') \<and>
   (brace_span raw = Some m \<longleftrightarrow>
      m \<noteq> [] \<and> hd m = CHR ''{'' \<and> last m = CHR ''}'' \<and>
      (\<exists>pre post. raw = pre @ m @ post \<and> CHR ''{'' \<notin> set pre \<and> CHR ''}'' \<notin> set post))"
proof (intro conjI impI)
  assume "json_loads raw = Value v"
  then show "parse_response json_loads raw = Inr v" by (simp add: parse_response_def)
next
  assume "json_loads raw = Raised e"
  then show "parse_response json_loads raw = Inl e" by (simp add: parse_response_def)
next
  assume "json_loads raw = DecodeError \<and> brace_span raw = Some m \<and> json_loads m = Value w"
  then show "parse_response json_loads raw = Inr w" by (simp add: parse_response_def)
next
  assume a: "json_loads raw = DecodeError \<and> brace_span raw = Some m \<and> json_loads m = DecodeError"
  then show p: "parse_response json_loads raw = Inl (JSONDecodeError m)"
    by (simp add: parse_response_def)
  then show "map_sum carried id (parse_response json_loads raw) = Inl m" by simp
  from a show "m = raw \<longleftrightarrow> hd raw = CHR ''{'' \<and> last raw = CHR ''}''"
    by (intro brace_span_whole) simp
next
  assume "json_loads raw = DecodeError \<and> brace_span raw = Some m \<and> json_loads m = Raised x"
  then show "parse_response json_loads raw = Inl x" by (simp add: parse_response_def)
next
  assume "json_loads raw = DecodeError \<and> brace_span raw = None"
  then show p: "parse_response json_loads raw = Inl (ValueError ''Could not find valid JSON in the response'')"
    by (simp add: parse_response_def)
  then show "map_sum carried id (parse_response json_loads raw) = Inl ''Could not find valid JSON in the response''"
    by simp
next
  show "brace_span raw = Some m \<longleftrightarrow>
      m \<noteq> [] \<and> hd m = CHR ''{'' \<and> last m = CHR ''}'' \<and>
      (\<exists>pre post. raw = pre @ m @ post \<and> CHR ''{'' \<notin> set pre \<and> CHR ''}'' \<notin> set post)"
    using brace_span_SomeD [of raw m] brace_span_SomeI [of m] by blast
qed

text \<open>
  Examples of every case, with the example reader and, for the exceptions that are
  not \<open>JSONDecodeError\<close>, with readers that raise \<open>RecursionError\<close>.
\<close>

theorem parse_response_two_stages_witness:
  "parse_response example_loads ''{\"vat\": 21}'' = Inr (JObject [(''vat'', JInt 21)]) \<and>
   parse_response (\<lambda>s. Raised RecursionError) ''[1, [2, [3] ] ]'' = Inl RecursionError \<and>
   parse_response example_loads ''Here it is: {\"vat\": 21} Anything else?'' =
     Inr (JObject [(''vat'', JInt 21)]) \<and>
   parse_response example_loads ''{\"vat\": 21} or {\"vat\": 15}'' =
     Inl (JSONDecodeError ''{\"vat\": 21} or {\"vat\": 15}'') \<and>
   map_sum carried id (parse_response example_loads ''See {\"vat\": } here'') = Inl ''{\"vat\": }'' \<and>
   parse_response (\<lambda>s. if s = ''{1}'' then Raised RecursionError else DecodeError) ''so {1} is''
     = Inl RecursionError \<and>
   parse_response example_loads ''Sorry, I cannot process this image.'' = Inl (ValueError ''Could not find valid JSON in the response'') \<and>
   brace_span (''Here it is: '' @ ''{\"vat\": 21}'' @ '' Anything else?'') = Some ''{\"vat\": 21}''"
proof -
  have a1: "example_loads ''{\"vat\": 21}'' = Value (JObject [(''vat'', JInt 21)])"
    by code_simp
  have b1: "example_loads ''Here it is: {\"vat\": 21} Anything else?'' = DecodeError \<and>
            brace_span ''Here it is: {\"vat\": 21} Anything else?'' = Some ''{\"vat\": 21}''"
    by code_simp
  have c1: "example_loads ''{\"vat\": 21} or {\"vat\": 15}'' = DecodeError \<and>
            brace_span ''{\"vat\": 21} or {\"vat\": 15}'' = Some ''{\"vat\": 21} or {\"vat\": 15}''"
    by code_simp
  have d1: "example_loads ''Sorry, I cannot process this image.'' = DecodeError \<and>
            brace_span ''Sorry, I cannot process this image.'' = None"
    by code_simp
  have f1: "example_loads ''See {\"vat\": } here'' = DecodeError \<and>
            brace_span ''See {\"vat\": } here'' = Some ''{\"vat\": }'' \<and>
            example_loads ''{\"vat\": }'' = DecodeError"
    by code_simp
  have g1: "brace_span ''so {1} is'' = Some ''{1}''"
    by code_simp
  have e1: "''{\"vat\": 21}'' \<noteq> [] \<and> hd ''{\"vat\": 21}'' = CHR ''{'' \<and> last ''{\"vat\": 21}'' = CHR ''}'' \<and>
      (\<exists>pre post. ''Here it is: '' @ ''{\"vat\": 21}'' @ '' Anything else?'' = pre @ ''{\"vat\": 21}'' @ post \<and>
         CHR ''{'' \<notin> set pre \<and> CHR ''}'' \<notin> set post)"
  proof (intro conjI exI)
    show "''Here it is: '' @ ''{\"vat\": 21}'' @ '' Anything else?'' =
          ''Here it is: '' @ ''{\"vat\": 21}'' @ '' Anything else?''" by (rule refl)
  qed simp_all
  have a2: "parse_response example_loads ''{\"vat\": 21}'' = Inr (JObject [(''vat'', JInt 21)])"
    using parse_response_two_stages [where json_loads = example_loads and raw = "''{\"vat\": 21}''",
        THEN conjunct1] a1
    by blast
  have r2: "parse_response (\<lambda>s. Raised RecursionError) ''[1, [2, [3] ] ]'' = Inl RecursionError"
    using parse_response_two_stages [where json_loads = "\<lambda>s. Raised RecursionError"
        and raw = "''[1, [2, [3] ] ]''" and e = RecursionError, THEN conjunct2, THEN conjunct1]
    by simp
  have b2: "parse_response example_loads ''Here it is: {\"vat\": 21} Anything else?'' =
     Inr (JObject [(''vat'', JInt 21)])"
    using parse_response_two_stages [where json_loads = example_loads
        and raw = "''Here it is: {\"vat\": 21} Anything else?''" and m = "''{\"vat\": 21}''"
        and w = "JObject [(''vat'', JInt 21)]",
        THEN conjunct2, THEN conjunct2, THEN conjunct1] b1 a1
    by blast
  have c2: "parse_response example_loads ''{\"vat\": 21} or {\"vat\": 15}'' =
     Inl (JSONDecodeError ''{\"vat\": 21} or {\"vat\": 15}'')"
    using parse_response_two_stages [where json_loads = example_loads
        and raw = "''{\"vat\": 21} or {\"vat\": 15}''" and m = "''{\"vat\": 21} or {\"vat\": 15}''",
        THEN conjunct2, THEN conjunct2, THEN conjunct2, THEN conjunct1] c1
    by blast
  have f2: "map_sum carried id (parse_response example_loads ''See {\"vat\": } here'') = Inl ''{\"vat\": }''"
    using parse_response_two_stages [where json_loads = example_loads
        and raw = "''See {\"vat\": } here''" and m = "''{\"vat\": }''",
        THEN conjunct2, THEN conjunct2, THEN conjunct2, THEN conjunct1] f1
    by blast
  have g2: "parse_response (\<lambda>s. if s = ''{1}'' then Raised RecursionError else DecodeError) ''so {1} is''
     = Inl RecursionError"
    using parse_response_two_stages [where json_loads = "\<lambda>s. if s = ''{1}'' then Raised RecursionError else DecodeError"
        and raw = "''so {1} is''" and m = "''{1}''" and x = RecursionError,
        THEN conjunct2, THEN conjunct2, THEN conjunct2, THEN conjunct2, THEN conjunct1] g1
    by simp
  have d2: "parse_response example_loads ''Sorry, I cannot process this image.'' = Inl (ValueError ''Could not find valid JSON in the response'')"
    using parse_response_two_stages [where json_loads = example_loads
        and raw = "''Sorry, I cannot process this image.''",
        THEN conjunct2, THEN conjunct2, THEN conjunct2, THEN conjunct2, THEN conjunct2, THEN conjunct1] d1
    by blast
  have e2: "brace_span (''Here it is: '' @ ''{\"vat\": 21}'' @ '' Anything else?'') = Some ''{\"vat\": 21}''"
    using parse_response_two_stages [where raw = "''Here it is: '' @ ''{\"vat\": 21}'' @ '' Anything else?''"
        and m = "''{\"vat\": 21}''",
        THEN conjunct2, THEN conjunct2, THEN conjunct2, THEN conjunct2, THEN conjunct2, THEN conjunct2] e1
    by blast
  from a2 r2 b2 c2 f2 g2 d2 e2 show ?thesis by blast
qed

subsection \<open>The prompt\<close>



subsection \<open>Credentials\<close>

text \<open>
  Claim C4, as stated, fails on the code. With no override, a key in the \<open>.env\<close> file
  and another in the environment of the process, the client gets the key of the
  environment, where the claim gives the key of the file.
\<close>

theorem credential_stated_counterexample:
  "client_api_key None
     (load_dotenv (Some [''GROQ_API_KEY'' \<mapsto> ''key-in-file'']) [''GROQ_API_KEY'' \<mapsto> ''key-in-env''])
     = Some ''key-in-env'' \<and>
   credential_stated None (Some [''GROQ_API_KEY'' \<mapsto> ''key-in-file''])
     [''GROQ_API_KEY'' \<mapsto> ''key-in-env''] = Some ''key-in-file''"
  by (simp add: client_api_key_def load_dotenv_def py_or_def credential_stated_def)

text \<open>
  Claim C4, amended. The key given to the client is the override when one is passed
  and is not empty; otherwise the variable \<open>GROQ_API_KEY\<close> of the environment of the
  process when it is set; otherwise the entry of the \<open>.env\<close> file when that file was
  loaded.
\<close>

theorem client_api_key_priority:
  "client_api_key api_key (load_dotenv dotenv process_env) =
     (if api_key \<noteq> None \<and> api_key \<noteq> Some [] then api_key
      else (case process_env ''GROQ_API_KEY'' of
              Some k \<Rightarrow> Some k
            | None \<Rightarrow> (case dotenv of Some vars \<Rightarrow> vars ''GROQ_API_KEY'' | None \<Rightarrow> None)))"
  by (auto simp: client_api_key_def load_dotenv_def py_or_def map_add_def
      split: option.splits)

lemma main_without_key:
  assumes "environ ''GROQ_API_KEY'' = None \<or> environ ''GROQ_API_KEY'' = Some []"
  shows "main h environ args s = (Inr (), say PleaseSetKey s)"
  using assms by (auto simp: main_def py_or_def)

text \<open>
  Claim C5. When neither the environment of the process nor the \<open>.env\<close> file has a
  \<open>GROQ_API_KEY\<close> (the program passes no override), the run prints how to set the key
  and returns: no file is written and no request is sent.
\<close>

theorem script_without_credential:
  assumes "process_env ''GROQ_API_KEY'' = None"
    and "\<forall>vars. dotenv = Some vars \<longrightarrow> vars ''GROQ_API_KEY'' = None"
  shows "script h dotenv process_env [] s = (Inr (), say PleaseSetKey s) \<and>
         out_files (snd (script h dotenv process_env [] s)) = out_files s \<and>
         requests (snd (script h dotenv process_env [] s)) = requests s"
proof -
  have "load_dotenv dotenv process_env ''GROQ_API_KEY'' = None"
    using assms by (cases dotenv) (simp_all add: load_dotenv_def map_add_def)
  then have "script h dotenv process_env [] s = (Inr (), say PleaseSetKey s)"
    unfolding script_def by (intro main_without_key) simp
  then show ?thesis by (simp add: say_def)
qed

theorem script_without_credential_witness:
  "script (example_host [''a.jpg''] [] [(''data:image/jpeg;base64,./a.jpg'', ''{\"vat\": 21}'')])
      (Some Map.empty) Map.empty [] start = (Inr (), say PleaseSetKey start) \<and>
   out_files (snd (script (example_host [''a.jpg''] [] [(''data:image/jpeg;base64,./a.jpg'', ''{\"vat\": 21}'')])
      (Some Map.empty) Map.empty [] start)) = out_files start \<and>
   requests (snd (script (example_host [''a.jpg''] [] [(''data:image/jpeg;base64,./a.jpg'', ''{\"vat\": 21}'')])
      (Some Map.empty) Map.empty [] start)) = requests start"
  by (rule script_without_credential) simp_all

subsection \<open>Discovery of the image files\<close>

lemma endswith_iff: "endswith s p \<longleftrightarrow> (\<exists>pre. s = pre @ p)"
proof
  assume e: "endswith s p"
  have "s = take (length s - length p) s @ drop (length s - length p) s"
    by (simp only: append_take_drop_id)
  also have "drop (length s - length p) s = p"
    using e by (simp add: endswith_def)
  finally show "\<exists>pre. s = pre @ p" ..
next
  assume "\<exists>pre. s = pre @ p"
  then obtain pre where "s = pre @ p" ..
  then show "endswith s p" by (simp add: endswith_def)
qed

lemma endswith_Cons: "endswith (c # cs) p \<longleftrightarrow> p = c # cs \<or> endswith cs p"
proof
  assume "endswith (c # cs) p"
  then obtain pre where pre: "c # cs = pre @ p" unfolding endswith_iff ..
  show "p = c # cs \<or> endswith cs p"
  proof (cases pre)
    case Nil
    with pre show ?thesis by simp
  next
    case (Cons x xs)
    with pre have "cs = xs @ p" by simp
    then have "endswith cs p" unfolding endswith_iff ..
    then show ?thesis ..
  qed
next
  assume "p = c # cs \<or> endswith cs p"
  then show "endswith (c # cs) p"
  proof
    assume "p = c # cs"
    then have "c # cs = [] @ p" by simp
    then show ?thesis unfolding endswith_iff ..
  next
    assume "endswith cs p"
    then obtain pre where "cs = pre @ p" unfolding endswith_iff ..
    then have "c # cs = (c # pre) @ p" by simp
    then show ?thesis unfolding endswith_iff ..
  qed
qed

lemma fnmatch_literal: "CHR ''*'' \<notin> set p \<Longrightarrow> fnmatch n p \<longleftrightarrow> n = p"
  by (induction n p rule: fnmatch.induct) auto

lemma fnmatch_star:
  assumes "CHR ''*'' \<notin> set p"
  shows "fnmatch n (CHR ''*'' # p) \<longleftrightarrow> endswith n p"
proof (induction n)
  case Nil
  have "fnmatch [] (CHR ''*'' # p) \<longleftrightarrow> [] = p"
    using assms by (simp add: fnmatch_literal)
  also have "\<dots> \<longleftrightarrow> endswith [] p" by (auto simp: endswith_def)
  finally show ?case .
next
  case (Cons c cs)
  have "fnmatch (c # cs) (CHR ''*'' # p) \<longleftrightarrow> fnmatch (c # cs) p \<or> fnmatch cs (CHR ''*'' # p)"
    by simp
  also have "\<dots> \<longleftrightarrow> c # cs = p \<or> endswith cs p"
    unfolding Cons.IH fnmatch_literal [OF assms] by (rule refl)
  also have "\<dots> \<longleftrightarrow> endswith (c # cs) p"
    unfolding endswith_Cons by auto
  finally show ?case .
qed

lemma path_join_pattern: "CHR ''/'' \<notin> set pat \<Longrightarrow> path_join d pat = path_join d [] @ pat"
  by (cases pat) (auto simp: path_join_def startswith_def)

lemma path_join_Nil_cases: "path_join d [] = [] \<or> (\<exists>y. path_join d [] = y @ ''/'')"
  by (auto simp: path_join_def startswith_def endswith_iff)

lemma path_split_no_dir:
  assumes "CHR ''/'' \<notin> set pat"
  shows "path_split pat = ([], pat)"
  using assms by (simp add: path_split_def rfind_absent)

lemma path_split_dir:
  assumes "CHR ''/'' \<notin> set pat"
  shows "path_split (y @ CHR ''/'' # pat) =
         (if y @ ''/'' \<noteq> replicate (Suc (length y)) CHR ''/'' then rstrip_slash (y @ ''/'') else y @ ''/'', pat)"
proof -
  have i: "nat (rfind (y @ CHR ''/'' # pat) CHR ''/'' + 1) = Suc (length y)"
    using assms by (simp add: rfind_append_sep nat_int_Suc del: of_nat_Suc)
  show ?thesis unfolding path_split_def i by (simp add: Let_def)
qed

lemma path_split_pattern:
  assumes "CHR ''/'' \<notin> set pat"
  shows "path_split (path_join d pat) = (listing_dir d, pat)"
proof -
  have e: "CHR ''/'' \<notin> set ([] :: string)" by simp
  have j: "path_join d pat = path_join d [] @ pat"
    using assms by (rule path_join_pattern)
  consider "path_join d [] = []" | y where "path_join d [] = y @ ''/''"
    using path_join_Nil_cases by blast
  then show ?thesis
  proof cases
    case 1
    have "path_split [] = ([], [])" using e by (rule path_split_no_dir)
    then show ?thesis
      unfolding j listing_dir_def 1 using assms by (simp add: path_split_no_dir)
  next
    case 2
    have "path_split (y @ CHR ''/'' # pat) = (fst (path_split (y @ CHR ''/'' # [])), pat)"
      unfolding path_split_dir [OF assms] path_split_dir [OF e] by simp
    then show ?thesis
      unfolding j listing_dir_def 2 by simp
  qed
qed

lemma glob_pattern:
  assumes "CHR ''/'' \<notin> set pat"
  shows "glob h (path_join d pat) =
         map (path_join (listing_dir d))
           (filter (\<lambda>name. \<not> ishidden name \<and> fnmatch name pat) (dir_names h (listing_dir d)))"
  by (simp add: glob_def path_split_pattern [OF assms])

lemma upper_patterns:
  "map upper image_extensions = [''*.JPG'', ''*.JPEG'', ''*.PNG'', ''*.GIF'', ''*.BMP'']"
  by code_simp

lemma image_files_eq:
  "image_files h d =
     concat (map (\<lambda>suffix. map (path_join (listing_dir d))
                   (filter (\<lambda>name. \<not> ishidden name \<and> endswith name suffix)
                      (dir_names h (listing_dir d))))
       [''.jpg'', ''.JPG'', ''.jpeg'', ''.JPEG'', ''.png'', ''.PNG'', ''.gif'', ''.GIF'',
        ''.bmp'', ''.BMP''])"
proof -
  have u: "upper ''*.jpg'' = ''*.JPG''" "upper ''*.jpeg'' = ''*.JPEG''" "upper ''*.png'' = ''*.PNG''"
    "upper ''*.gif'' = ''*.GIF''" "upper ''*.bmp'' = ''*.BMP''"
    using upper_patterns by (simp_all add: image_extensions_def)
  show ?thesis
    by (simp add: image_files_def image_extensions_def u glob_pattern fnmatch_star del: fnmatch.simps)
qed

lemma listing_dir_dot: "listing_dir ''.'' = ''.''"
  by (simp add: listing_dir_def path_join_def path_split_def rfind_def startswith_def
      endswith_def rstrip_slash_def)

lemma example_host_image_files:
  "image_files (example_host names unreadable replies) ''.'' =
     concat (map (\<lambda>suffix. map (path_join ''.'')
                   (filter (\<lambda>name. \<not> ishidden name \<and> endswith name suffix) names))
       [''.jpg'', ''.JPG'', ''.jpeg'', ''.JPEG'', ''.png'', ''.PNG'', ''.gif'', ''.GIF'',
        ''.bmp'', ''.BMP''])"
  unfolding image_files_eq listing_dir_dot by (simp add: example_host_def)




subsection \<open>One image and the loop over the images\<close>

lemma requests_say [simp]: "requests (say e s) = requests s"
  by (simp add: say_def)

lemma out_files_say [simp]: "out_files (say e s) = out_files s"
  by (simp add: say_def)

lemma extract_receipt_data_reply:
  assumes "client_api_key api_key environ = Some key"
    and "file_bytes h p = Some bytes"
    and "chat_create h (requests s) key (create_extraction_prompt (dumps h) system_prompt json_schema) (''data:image/jpeg;base64,'' @ b64encode h bytes) = Some text"
  shows "extract_receipt_data h environ p api_key s =
     (case parse_response (loads h) text of
        Inl e \<Rightarrow> (Inr None, say (ErrorProcessing p e) (s\<lparr>requests := Suc (requests s)\<rparr>))
      | Inr d \<Rightarrow> (Inr (Some d), s\<lparr>requests := Suc (requests s)\<rparr>))"
  using assms by (simp add: extract_receipt_data_def encode_image_def Let_def)

lemma extract_receipt_data_no_reply:
  assumes "client_api_key api_key environ = Some key"
    and "file_bytes h p = Some bytes"
    and "chat_create h (requests s) key (create_extraction_prompt (dumps h) system_prompt json_schema) (''data:image/jpeg;base64,'' @ b64encode h bytes) = None"
  shows "extract_receipt_data h environ p api_key s =
     (Inr None, say (ErrorProcessing p APIError) (s\<lparr>requests := Suc (requests s)\<rparr>))"
  using assms by (simp add: extract_receipt_data_def encode_image_def Let_def)

lemma extract_receipt_data_unreadable:
  assumes "client_api_key api_key environ = Some key" and "file_bytes h p = None"
  shows "extract_receipt_data h environ p api_key s = (Inl OSError, s)"
  using assms by (simp add: extract_receipt_data_def encode_image_def)

text \<open>
  The failures inside the \<open>try\<close> of \<open>extract_receipt_data\<close> do not stop the loop: the
  image counts as failed and the loop goes on with the next one.
\<close>

lemma process_images_caught:
  assumes "extract_receipt_data h environ p None (say (Processing (basename p)) s) = (Inr None, s1)"
  shows "process_images h environ (p # rest) n s =
         process_images h environ rest n (say (FailedToExtract (basename p)) s1)"
  using assms by simp

text \<open>
  The failures outside it do: an image that cannot be read, or an output file that
  cannot be opened, ends the loop with the exception, and the images after it are
  not looked at.
\<close>

lemma process_images_unreadable:
  assumes "client_api_key None environ = Some key" and "file_bytes h p = None"
  shows "process_images h environ (p # rest) n s = (Inl OSError, say (Processing (basename p)) s)"
  using assms by (simp add: extract_receipt_data_unreadable)

lemma process_images_unwritable:
  assumes "extract_receipt_data h environ p None (say (Processing (basename p)) s) = (Inr (Some d), s1)"
    and "truthy d" and "\<not> open_w h (get_json_filename p)"
  shows "process_images h environ (p # rest) n s = (Inl OSError, s1)"
  using assms by (simp add: write_json_def)

text \<open>
  Claim C1 fails on the code at an image that cannot be read. The key is set, the
  directory holds \<open>a.jpg\<close> and \<open>b.jpg\<close>, and \<open>a.jpg\<close> cannot be opened: the batch ends
  with \<open>OSError\<close> after announcing \<open>a.jpg\<close>; no request is sent, nothing is written
  and no summary is printed, although \<open>b.jpg\<close> is readable and the service has a
  reply for it.
\<close>

theorem batch_stops_at_unreadable_image:
  "process_all_receipts
     (example_host [''a.jpg'', ''b.jpg''] [''./a.jpg'']
        [(''data:image/jpeg;base64,./b.jpg'', ''{\"vat\": 21}'')])
     [''GROQ_API_KEY'' \<mapsto> ''k''] ''.'' start
   = (Inl OSError,
      \<lparr>out_files = [], requests = 0, printed = [FoundImages 2, Processing ''a.jpg'']\<rparr>)"
proof -
  let ?H = "example_host [''a.jpg'', ''b.jpg''] [''./a.jpg'']
        [(''data:image/jpeg;base64,./b.jpg'', ''{\"vat\": 21}'')]"
  have i: "image_files ?H ''.'' = [''./a.jpg'', ''./b.jpg'']"
    unfolding example_host_image_files
    by (simp add: ishidden_def startswith_def endswith_def path_join_def)
  have k: "client_api_key None [''GROQ_API_KEY'' \<mapsto> ''k''] = Some ''k''"
    by (simp add: client_api_key_def py_or_def)
  have f: "file_bytes ?H ''./a.jpg'' = None"
    by (simp add: example_host_def)
  have b: "basename ''./a.jpg'' = ''a.jpg''"
    by (simp add: basename_def rfind_def)
  have l: "process_images ?H [''GROQ_API_KEY'' \<mapsto> ''k''] [''./a.jpg'', ''./b.jpg''] 0
             (say (FoundImages (length [''./a.jpg'', ''./b.jpg''])) start)
           = (Inl OSError,
              say (Processing ''a.jpg'') (say (FoundImages (length [''./a.jpg'', ''./b.jpg''])) start))"
    unfolding process_images_unreadable [OF k f] b by (rule refl)
  show ?thesis
    unfolding process_all_receipts_def Let_def i l
    by (simp add: say_def start_def)
qed

text \<open>
  Claim C10. When the record recovered from the reply is the empty object, the image
  counts as a failure although the reply parsed: in the loop of the batch the counter
  of successes stays as it was, the failure is printed and no file is written; for a
  single file the run prints that the extraction failed and writes no file.
\<close>

theorem empty_record_is_failure:
  assumes "client_api_key None environ = Some key"
    and "file_bytes h p = Some bytes"
    and "chat_create h (requests s) key (create_extraction_prompt (dumps h) system_prompt json_schema) (''data:image/jpeg;base64,'' @ b64encode h bytes) = Some text"
    and "parse_response (loads h) text = Inr (JObject [])"
  shows "process_images h environ (p # rest) n s =
           process_images h environ rest n
             (say (FailedToExtract (basename p))
                ((say (Processing (basename p)) s)\<lparr>requests := Suc (requests s)\<rparr>)) \<and>
         process_images h environ [p] n s =
           (Inr n, say (FailedToExtract (basename p))
                     ((say (Processing (basename p)) s)\<lparr>requests := Suc (requests s)\<rparr>)) \<and>
         out_files (snd (process_images h environ [p] n s)) = out_files s \<and>
         (path_exists h p \<longrightarrow>
            process_single h environ p s =
              (Inr (), say FailedSingle ((say (ProcessingSingle p) s)\<lparr>requests := Suc (requests s)\<rparr>)) \<and>
            out_files (snd (process_single h environ p s)) = out_files s)"
proof -
  have e: "extract_receipt_data h environ p None (say ev s) =
             (Inr (Some (JObject [])), (say ev s)\<lparr>requests := Suc (requests s)\<rparr>)" for ev
  proof -
    have "chat_create h (requests (say ev s)) key (create_extraction_prompt (dumps h) system_prompt json_schema) (''data:image/jpeg;base64,'' @ b64encode h bytes) = Some text"
      using assms(3) by simp
    from extract_receipt_data_reply [OF assms(1,2) this] assms(4)
    show ?thesis by simp
  qed
  have 1: "process_images h environ (p # rest) n s =
           process_images h environ rest n
             (say (FailedToExtract (basename p))
                ((say (Processing (basename p)) s)\<lparr>requests := Suc (requests s)\<rparr>))" for rest
    by (simp add: e)
  have 2: "process_images h environ [p] n s =
           (Inr n, say (FailedToExtract (basename p))
                     ((say (Processing (basename p)) s)\<lparr>requests := Suc (requests s)\<rparr>))"
    unfolding 1 by simp
  have 3: "out_files (snd (process_images h environ [p] n s)) = out_files s"
    unfolding 2 by simp
  have 4: "process_single h environ p s =
              (Inr (), say FailedSingle ((say (ProcessingSingle p) s)\<lparr>requests := Suc (requests s)\<rparr>))"
    if "path_exists h p"
    using that by (simp add: process_single_def e)
  have 5: "out_files (snd (process_single h environ p s)) = out_files s" if "path_exists h p"
    unfolding 4 [OF that] by simp
  from 1 2 3 4 5 show ?thesis by blast
qed

theorem empty_record_is_failure_witness:
  "process_images (example_host [''a.jpg''] [] [(''data:image/jpeg;base64,./a.jpg'', ''{}'')])
     [''GROQ_API_KEY'' \<mapsto> ''k''] [''./a.jpg''] 0 start =
     (Inr 0, say (FailedToExtract (basename ''./a.jpg''))
               ((say (Processing (basename ''./a.jpg'')) start)\<lparr>requests := Suc (requests start)\<rparr>)) \<and>
   out_files (snd (process_images (example_host [''a.jpg''] [] [(''data:image/jpeg;base64,./a.jpg'', ''{}'')])
     [''GROQ_API_KEY'' \<mapsto> ''k''] [''./a.jpg''] 0 start)) = out_files start \<and>
   process_single (example_host [''a.jpg''] [] [(''data:image/jpeg;base64,./a.jpg'', ''{}'')])
     [''GROQ_API_KEY'' \<mapsto> ''k''] ''./a.jpg'' start =
     (Inr (), say FailedSingle ((say (ProcessingSingle ''./a.jpg'') start)\<lparr>requests := Suc (requests start)\<rparr>))"
proof -
  let ?H = "example_host [''a.jpg''] [] [(''data:image/jpeg;base64,./a.jpg'', ''{}'')]"
  have k: "client_api_key None [''GROQ_API_KEY'' \<mapsto> ''k''] = Some ''k''"
    by (simp add: client_api_key_def py_or_def)
  have f: "file_bytes ?H ''./a.jpg'' = Some ''./a.jpg''"
    by (simp add: example_host_def)
  have r: "chat_create ?H (requests start) ''k''
             (create_extraction_prompt (dumps ?H) system_prompt json_schema)
             (''data:image/jpeg;base64,'' @ b64encode ?H ''./a.jpg'') = Some ''{}''"
    by (simp add: example_host_def)
  have l: "parse_response example_loads ''{}'' = Inr (JObject [])"
    by code_simp
  have l': "parse_response (loads ?H) ''{}'' = Inr (JObject [])"
    using l by (simp add: example_host_def)
  have x: "path_exists ?H ''./a.jpg''"
    by (simp add: example_host_def)
  from empty_record_is_failure [OF k f r l', of "[]" 0] x
  show ?thesis by blast
qed

end
